theory Spec2Isabelle
  imports Complex_Main
begin

section \<open>The bucket-mirroring downloader (gcs_folder_download.py, download_training_data.py)\<close>

text \<open>
  The two scripts share \<open>parse_gcs_uri\<close>, \<open>should_skip\<close> and \<open>download_blob\<close> word for
  word. Python strings are modelled as \<open>string\<close>, exceptions as the left summand of a
  sum type, the local file system and the calls made to the storage library as an
  explicit state that every operation takes and returns.
\<close>

subsection \<open>Exceptions\<close>

datatype error =
    ValueError string
  | OSError
  | AuthError
  | ListingError
  | TransferError

subsection \<open>Python string methods\<close>

definition sep :: char where
  "sep = CHR ''/''"

text \<open>\<open>s.startswith(p)\<close> and \<open>s.endswith(p)\<close>.\<close>

definition startswith :: "string \<Rightarrow> string \<Rightarrow> bool" where
  "startswith p s = (take (length p) s = p)"

definition endswith :: "string \<Rightarrow> string \<Rightarrow> bool" where
  "endswith p s = (length p \<le> length s \<and> drop (length s - length p) s = p)"

text \<open>\<open>s.lstrip("/")\<close>, \<open>s.rstrip("/")\<close> and \<open>s.strip("/")\<close>.\<close>

definition lstrip :: "string \<Rightarrow> string" where
  "lstrip s = dropWhile (\<lambda>c. c = sep) s"

definition rstrip :: "string \<Rightarrow> string" where
  "rstrip s = rev (dropWhile (\<lambda>c. c = sep) (rev s))"

definition strip :: "string \<Rightarrow> string" where
  "strip s = rstrip (lstrip s)"

text \<open>\<open>s.split("/", 1)\<close>: one part when there is no separator, two parts otherwise.\<close>

definition split1 :: "string \<Rightarrow> string list" where
  "split1 s =
     (if sep \<in> set s
      then [takeWhile (\<lambda>c. c \<noteq> sep) s, tl (dropWhile (\<lambda>c. c \<noteq> sep) s)]
      else [s])"

subsection \<open>URI parser\<close>

definition parse_gcs_uri :: "string \<Rightarrow> error + (string \<times> string)" where
  "parse_gcs_uri gcs_uri =
     (if \<not> startswith ''gs://'' gcs_uri
      then Inl (ValueError ''GCS URI must start with gs://'')
      else
        let remainder = drop 5 gcs_uri;
            parts = split1 remainder;
            bucket = hd parts;
            prefix = (if length parts = 2 then strip (parts ! 1) else []);
            prefix = (if prefix \<noteq> [] \<and> \<not> endswith ''/'' prefix
                      then prefix @ ''/'' else prefix)
        in Inr (bucket, prefix))"

subsection \<open>Paths and the local file system\<close>

text \<open>
  A \<open>pathlib.Path\<close> is modelled by the list of its components below the root. Parsing a
  string into a path drops empty components and \<open>.\<close> components, as pathlib does, and
  keeps \<open>..\<close> components: pathlib leaves them to the operating system. The file system
  has no symbolic links and tells upper case from lower case.
\<close>

type_synonym path = "string list"

fun split_sep :: "string \<Rightarrow> string list" where
  "split_sep [] = [[]]"
| "split_sep (c # cs) =
     (if c = sep then [] # split_sep cs
      else (case split_sep cs of [] \<Rightarrow> [[c]] | x # xs \<Rightarrow> (c # x) # xs))"

definition path_parts :: "string \<Rightarrow> path" where
  "path_parts s = filter (\<lambda>c. c \<noteq> [] \<and> c \<noteq> ''.'') (split_sep s)"

text \<open>\<open>Path(base) / s\<close>: an absolute right operand replaces the left one.\<close>

definition path_join :: "path \<Rightarrow> string \<Rightarrow> path" where
  "path_join base s = (if startswith ''/'' s then path_parts s else base @ path_parts s)"

text \<open>\<open>p.parent\<close> drops the last component, whatever it is; the parent of the root is
  the root.\<close>

definition parent :: "path \<Rightarrow> path" where
  "parent p = butlast p"

text \<open>
  \<open>p.resolve()\<close> on an absolute path, without symbolic links: every \<open>..\<close> takes
  away the component before it, and at the root it stays at the root.
\<close>

definition resolve :: "path \<Rightarrow> path" where
  "resolve p = foldl (\<lambda>cur c. if c = ''..'' then butlast cur else cur @ [c]) [] p"

text \<open>
  An entry of the file system: a regular file of some byte size, a directory, or an
  entry that cannot be accessed (permission denied). The file system maps the location of
  an entry, a path without \<open>..\<close>, to the entry. The root always is a directory.
\<close>

datatype node = File nat | Dir | Locked

type_synonym files = "path \<Rightarrow> node option"

datatype errno = ENOENT | ENOTDIR | EACCES | EEXIST | EINVAL

text \<open>
  A name the system accepts: without NUL character, and of at most 255 bytes, as on the
  common Linux file systems.
\<close>

definition valid_name :: "string \<Rightarrow> bool" where
  "valid_name c = (CHR 0x00 \<notin> set c \<and> length c \<le> 255)"

text \<open>
  How the operating system finds the location a path names, starting from the directory
  \<open>cur\<close>: \<open>..\<close> goes up, a name that is not accepted is an error, every component
  before the last must be a directory that exists, and the last component need not exist.
\<close>

fun walk :: "files \<Rightarrow> path \<Rightarrow> string list \<Rightarrow> errno + path" where
  "walk fs cur [] = Inr cur"
| "walk fs cur (c # cs) =
     (if c = ''..'' then walk fs (butlast cur) cs
      else if \<not> valid_name c then Inl EINVAL
      else if cs = [] then Inr (cur @ [c])
      else (case fs (cur @ [c]) of
              None \<Rightarrow> Inl ENOENT
            | Some (File n) \<Rightarrow> Inl ENOTDIR
            | Some Locked \<Rightarrow> Inl EACCES
            | Some Dir \<Rightarrow> walk fs (cur @ [c]) cs))"

text \<open>
  What \<open>stat\<close> finds at a path: nothing when the path cannot be followed to its end
  or names nothing, an inaccessible entry when permission is denied on the way or a name
  is not accepted.
\<close>

definition node_at :: "files \<Rightarrow> path \<Rightarrow> node option" where
  "node_at fs p =
     (case walk fs [] p of
        Inl EACCES \<Rightarrow> Some Locked
      | Inl EINVAL \<Rightarrow> Some Locked
      | Inl e \<Rightarrow> None
      | Inr q \<Rightarrow> (if q = [] then Some Dir else fs q))"

text \<open>\<open>p.exists()\<close>, \<open>p.is_file()\<close> and \<open>p.stat().st_size\<close>.\<close>

definition exists :: "files \<Rightarrow> path \<Rightarrow> error + bool" where
  "exists fs p =
     (case node_at fs p of
        None \<Rightarrow> Inr False
      | Some Locked \<Rightarrow> Inl OSError
      | Some _ \<Rightarrow> Inr True)"

definition is_file :: "files \<Rightarrow> path \<Rightarrow> error + bool" where
  "is_file fs p =
     (case node_at fs p of
        None \<Rightarrow> Inr False
      | Some Locked \<Rightarrow> Inl OSError
      | Some (File n) \<Rightarrow> Inr True
      | Some Dir \<Rightarrow> Inr False)"

text \<open>
  The size the operating system reports for a directory is taken as 0; \<open>should_skip\<close>
  reads the size of regular files only.
\<close>

definition st_size :: "files \<Rightarrow> path \<Rightarrow> error + nat" where
  "st_size fs p =
     (case node_at fs p of
        None \<Rightarrow> Inl OSError
      | Some Locked \<Rightarrow> Inl OSError
      | Some (File n) \<Rightarrow> Inr n
      | Some Dir \<Rightarrow> Inr 0)"

text \<open>\<open>os.mkdir(p)\<close>: makes one directory, and fails when something is there already.\<close>

definition os_mkdir :: "files \<Rightarrow> path \<Rightarrow> errno + files" where
  "os_mkdir fs p =
     (case walk fs [] p of
        Inl e \<Rightarrow> Inl e
      | Inr q \<Rightarrow>
          if q = [] then Inl EEXIST
          else (case fs q of
                  Some nd \<Rightarrow> Inl EEXIST
                | None \<Rightarrow> Inr (fs(q \<mapsto> Dir))))"

text \<open>
  \<open>p.mkdir(parents=True, exist_ok=True)\<close> as pathlib does it: it tries \<open>os.mkdir\<close>;
  on \<open>FileNotFoundError\<close> it makes the parent in the same way and tries once more; on
  any other error it is content when the path is a directory, and raises otherwise.
\<close>

function mkdir :: "files \<Rightarrow> path \<Rightarrow> error + files" where
  "mkdir fs p =
     (case os_mkdir fs p of
        Inr fs1 \<Rightarrow> Inr fs1
      | Inl ENOENT \<Rightarrow>
          if parent p = p then Inl OSError
          else (case mkdir fs (parent p) of
                  Inl e \<Rightarrow> Inl e
                | Inr fs1 \<Rightarrow>
                    (case os_mkdir fs1 p of
                       Inr fs2 \<Rightarrow> Inr fs2
                     | Inl ENOENT \<Rightarrow> Inl OSError
                     | Inl e \<Rightarrow> if node_at fs1 p = Some Dir then Inr fs1 else Inl OSError))
      | Inl e \<Rightarrow> if node_at fs p = Some Dir then Inr fs else Inl OSError)"
  by pat_completeness auto
termination
proof (relation "measure (\<lambda>(fs, p). length p)")
  show "wf (measure (\<lambda>(fs, p). length p))" by simp
next
  fix fs :: files and p :: path and e :: errno
  assume "parent p \<noteq> p"
  then have "p \<noteq> []" by (auto simp: parent_def)
  then show "((fs, parent p), (fs, p)) \<in> measure (\<lambda>(fs, p). length p)"
    by (simp add: parent_def)
qed

declare mkdir.simps [simp del]

subsection \<open>Remote objects, transfer requests and the state\<close>

record blob =
  name :: string
  size_bytes :: nat

text \<open>\<open>Retry(initial=1.0, maximum=30.0, multiplier=2.0, deadline=300.0)\<close>\<close>

record retry =
  initial :: real
  maximum :: real
  multiplier :: real
  deadline :: real

definition Retry :: "real \<Rightarrow> real \<Rightarrow> real \<Rightarrow> real \<Rightarrow> retry" where
  "Retry i m k d = \<lparr>initial = i, maximum = m, multiplier = k, deadline = d\<rparr>"

text \<open>One call of \<open>blob.download_to_filename\<close>, as the storage library receives it.\<close>

record request =
  req_blob :: string
  req_filename :: path
  req_chunk_size :: "int option"
  req_retry :: retry

record world =
  files :: files
  requests :: "request list"

text \<open>
  What the program cannot decide by itself comes from the environment: whether the
  credentials file yields a client, what the listing of a bucket under a prefix returns
  (\<open>client.bucket\<close>, \<open>list_blobs\<close> and the reading of its iterator), whether the
  transfer of an object, retried under its policy, delivers the object before the policy's
  deadline, and how many of the tasks queued behind a task that raises have been started
  by the pool when the exception reaches the loop.
\<close>

record env =
  from_service_account_json :: "string \<Rightarrow> error option"
  list_blobs :: "string \<Rightarrow> string \<Rightarrow> error + blob list"
  delivers :: "string \<Rightarrow> bool"
  started_behind :: nat

subsection \<open>Existence check\<close>

text \<open>The body of the \<open>try\<close> block: \<open>None\<close> when it falls through to the end.\<close>

definition should_skip_try :: "files \<Rightarrow> path \<Rightarrow> blob \<Rightarrow> error + bool option" where
  "should_skip_try fs local_path b =
     (case exists fs local_path of
        Inl e \<Rightarrow> Inl e
      | Inr False \<Rightarrow> Inr None
      | Inr True \<Rightarrow>
          (case is_file fs local_path of
             Inl e \<Rightarrow> Inl e
           | Inr False \<Rightarrow> Inr None
           | Inr True \<Rightarrow>
               (case st_size fs local_path of
                  Inl e \<Rightarrow> Inl e
                | Inr n \<Rightarrow> Inr (Some (n = size_bytes b)))))"

definition should_skip :: "files \<Rightarrow> path \<Rightarrow> blob \<Rightarrow> bool" where
  "should_skip fs local_path b =
     (case should_skip_try fs local_path b of
        Inl e \<Rightarrow> False
      | Inr (Some r) \<Rightarrow> r
      | Inr None \<Rightarrow> False)"

subsection \<open>Download worker\<close>

text \<open>
  \<open>blob.download_to_filename(filename, retry=retry)\<close> belongs to the storage library.
  The model records the call, lets it raise where the file cannot be opened for writing
  (the path cannot be followed, or it names a directory or an inaccessible entry), and
  otherwise asks the environment whether the transfer delivers: if so the file holds the
  object's bytes, as many as the listing recorded; if not the call raises once the retry
  policy gives up, and the file that was opened stays behind, empty.
\<close>

definition download_to_filename ::
    "env \<Rightarrow> blob \<Rightarrow> int option \<Rightarrow> path \<Rightarrow> retry \<Rightarrow> world \<Rightarrow> (error + unit) \<times> world" where
  "download_to_filename E b chunk filename r w =
     (let w1 = w\<lparr>requests := requests w @
                  [\<lparr>req_blob = name b, req_filename = filename,
                    req_chunk_size = chunk, req_retry = r\<rparr>]\<rparr>
      in case walk (files w) [] filename of
           Inl e \<Rightarrow> (Inl OSError, w1)
         | Inr q \<Rightarrow>
             if q = [] then (Inl OSError, w1)
             else (case files w q of
                     Some Dir \<Rightarrow> (Inl OSError, w1)
                   | Some Locked \<Rightarrow> (Inl OSError, w1)
                   | _ \<Rightarrow>
                       if delivers E (name b)
                       then (Inr (), w1\<lparr>files := (files w)(q \<mapsto> File (size_bytes b))\<rparr>)
                       else (Inl TransferError, w1\<lparr>files := (files w)(q \<mapsto> File 0)\<rparr>)))"

text \<open>\<open>rel\<close> and \<open>local_path\<close>, the two values \<open>download_blob\<close> computes first.\<close>

definition rel :: "string \<Rightarrow> string \<Rightarrow> string" where
  "rel base_prefix blob_name = lstrip (drop (length base_prefix) blob_name)"

definition local_path :: "path \<Rightarrow> string \<Rightarrow> string \<Rightarrow> path" where
  "local_path dest_dir base_prefix blob_name = path_join dest_dir (rel base_prefix blob_name)"

text \<open>\<open>if chunk_size:\<close> holds for an integer other than 0; the listing leaves the
  object's own chunk size unset.\<close>

definition chunk_of :: "int option \<Rightarrow> int option" where
  "chunk_of chunk_size =
     (case chunk_size of None \<Rightarrow> None | Some n \<Rightarrow> (if n \<noteq> 0 then Some n else None))"

type_synonym task = "blob \<times> string \<times> path \<times> bool \<times> int option"

fun download_blob :: "env \<Rightarrow> task \<Rightarrow> world \<Rightarrow> (error + string) \<times> world" where
  "download_blob E (b, base_prefix, dest_dir, skip_existing, chunk_size) w =
     (if endswith ''/'' (name b)
      then (Inr (''DIR  : '' @ name b @ '' (skipped marker)''), w)
      else
        (case mkdir (files w) (parent (local_path dest_dir base_prefix (name b))) of
           Inl e \<Rightarrow> (Inl e, w)
         | Inr fs1 \<Rightarrow>
             if skip_existing \<and> should_skip fs1 (local_path dest_dir base_prefix (name b)) b
             then (Inr (''SKIP : '' @ rel base_prefix (name b) @ '' (exists, same size)''),
                   w\<lparr>files := fs1\<rparr>)
             else
               (case download_to_filename E b (chunk_of chunk_size)
                       (local_path dest_dir base_prefix (name b))
                       (Retry 1.0 30.0 2.0 300.0) (w\<lparr>files := fs1\<rparr>) of
                  (Inl e, w2) \<Rightarrow> (Inl e, w2)
                | (Inr u, w2) \<Rightarrow> (Inr (''OK   : '' @ rel base_prefix (name b)), w2))))"

subsection \<open>Dispatcher and reporter\<close>

text \<open>
  \<open>ex.map(download_blob, work)\<close> submits every task, hands the results over in the
  order of \<open>work\<close>, and raises the exception of a task in the place of its result. The
  pool is modelled by running the tasks one at a time in that order. When a task raises,
  the iteration ends and the tasks behind it are cancelled, except those the pool has
  started already: these run to their end and their results are dropped. Printing is not
  modelled.
\<close>

fun run_dropped :: "env \<Rightarrow> task list \<Rightarrow> world \<Rightarrow> world" where
  "run_dropped E [] w = w"
| "run_dropped E (t # ts) w = run_dropped E ts (snd (download_blob E t w))"

fun ex_map :: "env \<Rightarrow> task list \<Rightarrow> world \<Rightarrow> (error + string list) \<times> world" where
  "ex_map E [] w = (Inr [], w)"
| "ex_map E (t # ts) w =
     (case download_blob E t w of
        (Inl e, w1) \<Rightarrow> (Inl e, run_dropped E (take (started_behind E) ts) w1)
      | (Inr result, w1) \<Rightarrow>
          (case ex_map E ts w1 of
             (Inl e, w2) \<Rightarrow> (Inl e, w2)
           | (Inr results, w2) \<Rightarrow> (Inr (result # results), w2)))"

text \<open>The body of the \<open>for result in ...\<close> loop, on the counters (completed, errors).\<close>

fun tally :: "string list \<Rightarrow> nat \<times> nat \<Rightarrow> nat \<times> nat" where
  "tally [] (completed, errors) = (completed, errors)"
| "tally (result # results) (completed, errors) =
     (if startswith ''OK'' result then tally results (completed + 1, errors)
      else if startswith ''SKIP'' result then tally results (completed, errors)
      else if startswith ''DIR'' result then tally results (completed, errors)
      else tally results (completed, errors + 1))"

text \<open>\<open>cf.ThreadPoolExecutor(max_workers=n)\<close> raises unless \<open>n\<close> is greater than 0.\<close>

definition ThreadPoolExecutor :: "int \<Rightarrow> error option" where
  "ThreadPoolExecutor max_workers =
     (if max_workers \<le> 0 then Some (ValueError ''max_workers must be greater than 0'')
      else None)"

definition work_of :: "blob list \<Rightarrow> string \<Rightarrow> path \<Rightarrow> bool \<Rightarrow> int option \<Rightarrow> task list" where
  "work_of blobs prefix dest_dir skip_existing chunk_size =
     map (\<lambda>b. (b, prefix, dest_dir, skip_existing, chunk_size)) blobs"

definition chunk_size_of_mb :: "int \<Rightarrow> int option" where
  "chunk_size_of_mb chunk_size_mb =
     (if chunk_size_mb > 0 then Some (chunk_size_mb * 1024 * 1024) else None)"

subsection \<open>gcs_folder_download.py: main\<close>

text \<open>The parsed command line; \<open>dest\<close> is the destination after \<open>Path.resolve()\<close>.\<close>

record args =
  gcs_uri :: string
  creds :: string
  dest :: path
  workers :: int
  skip_existing :: bool
  chunk_size_mb :: int

text \<open>The three numbers of the closing line \<open>Done. Successful: ..., Errors: ..., Total listed: ...\<close>.\<close>

record summary =
  completed :: nat
  errors :: nat
  total :: nat

text \<open>\<open>main\<close> returns without a summary (\<open>None\<close>) when the listing is empty.\<close>

definition main :: "env \<Rightarrow> args \<Rightarrow> world \<Rightarrow> (error + summary option) \<times> world" where
  "main E a w =
     (case parse_gcs_uri (gcs_uri a) of
        Inl e \<Rightarrow> (Inl e, w)
      | Inr (bucket_name, prefix) \<Rightarrow>
          (case mkdir (files w) (dest a) of
             Inl e \<Rightarrow> (Inl e, w)
           | Inr fs1 \<Rightarrow>
               (case from_service_account_json E (creds a) of
                  Some e \<Rightarrow> (Inl e, w\<lparr>files := fs1\<rparr>)
                | None \<Rightarrow>
                    (case list_blobs E bucket_name prefix of
                       Inl e \<Rightarrow> (Inl e, w\<lparr>files := fs1\<rparr>)
                     | Inr blobs \<Rightarrow>
                         if blobs = [] then (Inr None, w\<lparr>files := fs1\<rparr>)
                         else
                           (case ThreadPoolExecutor (workers a) of
                              Some e \<Rightarrow> (Inl e, w\<lparr>files := fs1\<rparr>)
                            | None \<Rightarrow>
                                (case ex_map E
                                        (work_of blobs prefix (dest a) (skip_existing a)
                                           (chunk_size_of_mb (chunk_size_mb a)))
                                        (w\<lparr>files := fs1\<rparr>) of
                                   (Inl e, w2) \<Rightarrow> (Inl e, w2)
                                 | (Inr results, w2) \<Rightarrow>
                                     (Inr (Some \<lparr>completed = fst (tally results (0, 0)),
                                                 errors = snd (tally results (0, 0)),
                                                 total = length blobs\<rparr>), w2)))))))"


subsection \<open>download_training_data.py: download_gcs_prefix and main\<close>



text \<open>
  The parsed command line of the training-data script. An option that was not given
  (\<open>None\<close>) is the empty list; \<open>nargs="+"\<close> never yields an empty list itself.
  \<open>dest'\<close> is the path that \<open>--dest\<close> names, taken from the root.
\<close>

record train_args =
  bucket :: string
  creds' :: string
  dest' :: path
  years :: "string list"
  download_constants :: bool
  custom_paths :: "string list"
  workers' :: int
  skip_existing' :: bool
  chunk_size_mb' :: int
  quiet :: bool




subsection \<open>The outcome of every task\<close>

text \<open>
  What each task of a work list produces when the tasks run one after the other and a
  raising task does not stop the ones behind it: a returned string or a raised exception
  per task. This is the view of the worker pool; \<open>ex_map\<close> is the view of the loop that
  reads the results.
\<close>

fun task_outcomes :: "env \<Rightarrow> task list \<Rightarrow> world \<Rightarrow> (error + string) list" where
  "task_outcomes E [] w = []"
| "task_outcomes E (t # ts) w =
     fst (download_blob E t w) # task_outcomes E ts (snd (download_blob E t w))"




text \<open>A file system keeps the directories of another one.\<close>

definition dirs_kept :: "files \<Rightarrow> files \<Rightarrow> bool" where
  "dirs_kept fs fs' = (\<forall>k. fs k = Some Dir \<longrightarrow> fs' k = Some Dir)"


text \<open>\<open>"/".join(cs)\<close>: the relative key whose segments are \<open>cs\<close>.\<close>

fun join_sep :: "string list \<Rightarrow> string" where
  "join_sep [] = []"
| "join_sep [c] = c"
| "join_sep (c # cs) = c @ sep # join_sep cs"

subsection \<open>Concrete runs\<close>

text \<open>
  The scenario of the specification: the listing under \<open>a/\<close> holds \<open>a/file1.txt\<close>
  (10 bytes, no local copy), \<open>a/file2.txt\<close> (20 bytes, a local copy of 20 bytes) and the
  marker \<open>a/dir/\<close>; every transfer delivers; skip-existing is on.
\<close>

definition scn_blobs :: "blob list" where
  "scn_blobs = [\<lparr>name = ''a/file1.txt'', size_bytes = 10\<rparr>,
                \<lparr>name = ''a/file2.txt'', size_bytes = 20\<rparr>,
                \<lparr>name = ''a/dir/'', size_bytes = 0\<rparr>]"

definition scn_env :: env where
  "scn_env = \<lparr>from_service_account_json = (\<lambda>c. None),
              list_blobs = (\<lambda>b p. if b = ''bkt'' \<and> p = ''a/'' then Inr scn_blobs else Inr []),
              delivers = (\<lambda>n. True), started_behind = 0\<rparr>"

definition scn_args :: args where
  "scn_args = \<lparr>gcs_uri = ''gs://bkt/a'', creds = ''key.json'', dest = [''d''],
               workers = 4, skip_existing = True, chunk_size_mb = 8\<rparr>"

definition scn_world :: world where
  "scn_world = \<lparr>files = [[''d''] \<mapsto> Dir, [''d'', ''file2.txt''] \<mapsto> File 20], requests = []\<rparr>"

text \<open>The same listing when the transfer of \<open>a/file1.txt\<close> never delivers and the pool
  has started the two tasks behind it.\<close>

definition failing_env :: env where
  "failing_env = scn_env\<lparr>delivers := (\<lambda>n. n \<noteq> ''a/file1.txt''), started_behind := 2\<rparr>"

text \<open>
  A listing under \<open>p/\<close> with the two keys \<open>p/x\<close> (1 byte) and \<open>p//x\<close> (2 bytes),
  which have the same local path; every transfer delivers; skip-existing is on.
\<close>

definition clash_env :: env where
  "clash_env = \<lparr>from_service_account_json = (\<lambda>c. None),
                list_blobs = (\<lambda>b p. Inr [\<lparr>name = ''p/x'', size_bytes = 1\<rparr>,
                                         \<lparr>name = ''p//x'', size_bytes = 2\<rparr>]),
                delivers = (\<lambda>n. True), started_behind = 0\<rparr>"

definition clash_args :: args where
  "clash_args = \<lparr>gcs_uri = ''gs://bkt/p'', creds = ''key.json'', dest = [''d''],
                 workers = 1, skip_existing = True, chunk_size_mb = 8\<rparr>"

definition clash_world :: world where
  "clash_world = \<lparr>files = Map.empty, requests = []\<rparr>"

text \<open>
  A listing with the two keys \<open>p/b/../x\<close> (2 bytes) and \<open>p/x\<close> (1 byte): the local
  paths differ, and both name the file \<open>d/x\<close>.
\<close>

definition dotdot_env :: env where
  "dotdot_env = clash_env\<lparr>list_blobs := (\<lambda>b p. Inr [\<lparr>name = ''p/b/../x'', size_bytes = 2\<rparr>,
                                                    \<lparr>name = ''p/x'', size_bytes = 1\<rparr>])\<rparr>"


section \<open>Properties\<close>

subsection \<open>String helpers\<close>










subsection \<open>URI parser\<close>




subsection \<open>File system\<close>


lemma walk_kept:
  "walk fs cur p = Inr q \<Longrightarrow> dirs_kept fs fs' \<Longrightarrow> walk fs' cur p = Inr q"
proof (induction p arbitrary: cur)
  case Nil
  then show ?case by simp
next
  case (Cons c cs)
  show ?case
  proof (cases "c = ''..''")
    case True
    with Cons show ?thesis by simp
  next
    case False
    show ?thesis
    proof (cases "cs = []")
      case True
      with False Cons.prems show ?thesis by (simp split: if_splits)
    next
      case ne: False
      with False Cons.prems(1) have v: "valid_name c" and d: "fs (cur @ [c]) = Some Dir"
        and w: "walk fs (cur @ [c]) cs = Inr q"
        by (auto split: if_splits option.splits node.splits)
      from d Cons.prems(2) have "fs' (cur @ [c]) = Some Dir"
        by (simp add: dirs_kept_def)
      with False ne v Cons.IH [OF w Cons.prems(2)] show ?thesis by simp
    qed
  qed
qed

lemma node_at_file:
  "node_at fs p = Some (File n) \<longleftrightarrow>
     (\<exists>q. walk fs [] p = Inr q \<and> q \<noteq> [] \<and> fs q = Some (File n))"
  by (auto simp: node_at_def split: sum.splits errno.splits)





lemma dirs_kept_write: "fs q \<noteq> Some Dir \<Longrightarrow> dirs_kept fs (fs(q \<mapsto> nd))"
  by (auto simp: dirs_kept_def)









subsection \<open>Existence check\<close>

lemma should_skip_node:
  "should_skip fs p b = (node_at fs p = Some (File (size_bytes b)))"
  by (auto simp: should_skip_def should_skip_try_def exists_def is_file_def st_size_def
           split: option.splits node.splits)

text \<open>
  Claim C5. \<open>should_skip\<close> is true exactly when the path names a regular file whose
  byte size equals the recorded size of the object; it is false when nothing is at the
  path (whatever the recorded size, 0 included), and false when a file-system call of
  the check raises: the exception does not leave \<open>should_skip\<close>.
\<close>

theorem should_skip_iff_same_size:
  "(should_skip fs p b \<longleftrightarrow> (\<exists>n. node_at fs p = Some (File n) \<and> n = size_bytes b))
   \<and> (node_at fs p = None \<longrightarrow> \<not> should_skip fs p b)
   \<and> ((\<exists>e. should_skip_try fs p b = Inl e) \<longrightarrow> \<not> should_skip fs p b)"
proof (intro conjI impI)
  show "should_skip fs p b \<longleftrightarrow> (\<exists>n. node_at fs p = Some (File n) \<and> n = size_bytes b)"
    by (auto simp: should_skip_node)
  show "\<not> should_skip fs p b" if "node_at fs p = None"
    using that by (simp add: should_skip_node)
  show "\<not> should_skip fs p b" if "\<exists>e. should_skip_try fs p b = Inl e"
    using that by (auto simp: should_skip_def)
qed

theorem should_skip_iff_same_size_witness:
  "node_at [[''d''] \<mapsto> Dir] [''d'', ''f''] = None
   \<and> \<not> should_skip [[''d''] \<mapsto> Dir] [''d'', ''f''] \<lparr>name = ''f'', size_bytes = 0\<rparr>
   \<and> (\<exists>e. should_skip_try [[''d''] \<mapsto> Dir, [''d'', ''f''] \<mapsto> Locked] [''d'', ''f'']
             \<lparr>name = ''f'', size_bytes = 7\<rparr> = Inl e)
   \<and> \<not> should_skip [[''d''] \<mapsto> Dir, [''d'', ''f''] \<mapsto> Locked] [''d'', ''f'']
         \<lparr>name = ''f'', size_bytes = 7\<rparr>
   \<and> should_skip [[''d''] \<mapsto> Dir, [''d'', ''f''] \<mapsto> File 7] [''d'', ''f'']
         \<lparr>name = ''f'', size_bytes = 7\<rparr>
   \<and> \<not> should_skip [[''d''] \<mapsto> Dir, [''d'', ''f''] \<mapsto> File 8] [''d'', ''f'']
         \<lparr>name = ''f'', size_bytes = 7\<rparr>"
  using should_skip_iff_same_size [of "[[''d''] \<mapsto> Dir]" "[''d'', ''f'']" "\<lparr>name = ''f'', size_bytes = 0\<rparr>"]
        should_skip_iff_same_size [of "[[''d''] \<mapsto> Dir, [''d'', ''f''] \<mapsto> Locked]" "[''d'', ''f'']"
                                      "\<lparr>name = ''f'', size_bytes = 7\<rparr>"]
        should_skip_iff_same_size [of "[[''d''] \<mapsto> Dir, [''d'', ''f''] \<mapsto> File 7]" "[''d'', ''f'']"
                                      "\<lparr>name = ''f'', size_bytes = 7\<rparr>"]
        should_skip_iff_same_size [of "[[''d''] \<mapsto> Dir, [''d'', ''f''] \<mapsto> File 8]" "[''d'', ''f'']"
                                      "\<lparr>name = ''f'', size_bytes = 7\<rparr>"]
  by (simp add: node_at_def valid_name_def should_skip_try_def exists_def)

subsection \<open>Download worker\<close>

text \<open>
  Claim C6. For an object whose key ends with the separator, \<open>download_blob\<close> returns
  the \<open>DIR\<close> result and leaves the state as it was: no directory is created and no
  transfer is requested, whatever the skip-existing flag is.
\<close>

theorem marker_ignored:
  "endswith ''/'' (name b) \<Longrightarrow>
     download_blob E (b, base_prefix, dest_dir, skip, chunk_size) w =
       (Inr (''DIR  : '' @ name b @ '' (skipped marker)''), w)"
  by simp

theorem marker_ignored_witness:
  "endswith ''/'' (name \<lparr>name = ''a/dir/'', size_bytes = 0\<rparr>)
   \<and> download_blob scn_env (\<lparr>name = ''a/dir/'', size_bytes = 0\<rparr>, ''a/'', [''d''], True, Some 8388608)
         scn_world = (Inr ''DIR  : a/dir/ (skipped marker)'', scn_world)
   \<and> download_blob scn_env (\<lparr>name = ''a/dir/'', size_bytes = 0\<rparr>, ''a/'', [''d''], False, Some 8388608)
         scn_world = (Inr ''DIR  : a/dir/ (skipped marker)'', scn_world)"
  using marker_ignored [of "\<lparr>name = ''a/dir/'', size_bytes = 0\<rparr>" scn_env "''a/''" "[''d'']" True
                           "Some 8388608" scn_world]
        marker_ignored [of "\<lparr>name = ''a/dir/'', size_bytes = 0\<rparr>" scn_env "''a/''" "[''d'']" False
                           "Some 8388608" scn_world]
  by (simp add: endswith_def)

lemma download_to_filename_requests:
  "requests (snd (download_to_filename E b c f r w)) =
     requests w @ [\<lparr>req_blob = name b, req_filename = f, req_chunk_size = c, req_retry = r\<rparr>]"
  by (simp add: download_to_filename_def Let_def split: sum.splits option.splits node.splits)

lemma download_blob_transfer:
  assumes "\<not> endswith ''/'' (name b)"
    and "mkdir (files w) (parent (local_path dest_dir base_prefix (name b))) = Inr fs1"
    and "\<not> (skip \<and> should_skip fs1 (local_path dest_dir base_prefix (name b)) b)"
  shows "download_blob E (b, base_prefix, dest_dir, skip, chunk_size) w =
           (case download_to_filename E b (chunk_of chunk_size)
                   (local_path dest_dir base_prefix (name b))
                   (Retry 1.0 30.0 2.0 300.0) (w\<lparr>files := fs1\<rparr>) of
              (Inl e, w2) \<Rightarrow> (Inl e, w2)
            | (Inr u, w2) \<Rightarrow> (Inr (''OK   : '' @ rel base_prefix (name b)), w2))"
  using assms by auto

lemma download_blob_requests:
  "requests (snd (download_blob E (b, base_prefix, dest_dir, skip, chunk_size) w)) = requests w
   \<or> requests (snd (download_blob E (b, base_prefix, dest_dir, skip, chunk_size) w)) =
       requests w @ [\<lparr>req_blob = name b,
                      req_filename = local_path dest_dir base_prefix (name b),
                      req_chunk_size = chunk_of chunk_size,
                      req_retry = Retry 1.0 30.0 2.0 300.0\<rparr>]"
proof -
  let ?lp = "local_path dest_dir base_prefix (name b)"
  have *: "requests (snd (case download_to_filename E b c ?lp r w0 of
                (Inl e, w2) \<Rightarrow> (Inl e, w2)
              | (Inr u, w2) \<Rightarrow> (Inr s, w2))) =
           requests (snd (download_to_filename E b c ?lp r w0))" for c r w0 s
    by (cases "download_to_filename E b c ?lp r w0") (auto split: sum.splits)
  show ?thesis
    by (simp add: * download_to_filename_requests split: sum.splits)
qed

subsection \<open>Unfolding the model on concrete inputs\<close>

lemmas model_defs =
  startswith_def endswith_def lstrip_def rstrip_def strip_def split1_def sep_def
  path_parts_def path_join_def parent_def node_at_def exists_def is_file_def st_size_def
  valid_name_def os_mkdir_def mkdir.simps resolve_def ThreadPoolExecutor_def Retry_def should_skip_try_def should_skip_def download_to_filename_def
  rel_def local_path_def chunk_of_def work_of_def chunk_size_of_mb_def
  scn_blobs_def scn_env_def scn_args_def scn_world_def failing_env_def

subsection \<open>Local destination path\<close>

lemma split_sep_nonempty: "split_sep s \<noteq> []"
  by (induction s) (auto split: list.splits)

lemma split_sep_append:
  "sep \<notin> set c \<Longrightarrow> split_sep (c @ s) = (c @ hd (split_sep s)) # tl (split_sep s)"
proof (induction c)
  case Nil
  then show ?case using split_sep_nonempty [of s] by (cases "split_sep s") auto
next
  case (Cons a c)
  then show ?case by (auto split: list.splits)
qed

lemma split_sep_single: "sep \<notin> set c \<Longrightarrow> split_sep c = [c]"
  using split_sep_append [of c "[]"] by simp

lemma split_join:
  "cs \<noteq> [] \<Longrightarrow> \<forall>c\<in>set cs. sep \<notin> set c \<Longrightarrow> split_sep (join_sep cs) = cs"
proof (induction cs rule: join_sep.induct)
  case 1
  then show ?case by simp
next
  case (2 c)
  then show ?case by (simp add: split_sep_single)
next
  case (3 c d ds)
  then have "split_sep (join_sep (d # ds)) = d # ds" by simp
  moreover have "sep \<notin> set c" using 3 by simp
  ultimately show ?case by (simp add: split_sep_append)
qed

lemma lstrip_not_abs: "\<not> startswith ''/'' (lstrip k)"
proof (cases "lstrip k")
  case Nil
  then show ?thesis by (simp add: startswith_def)
next
  case (Cons a as)
  then have "a \<noteq> sep"
    using hd_dropWhile [of "\<lambda>c. c = sep" k] by (auto simp: lstrip_def)
  with Cons show ?thesis by (simp add: startswith_def sep_def)
qed

lemma local_path_parts:
  "local_path dest_dir prefix (prefix @ k) = dest_dir @ path_parts (lstrip k)"
  by (simp add: local_path_def rel_def path_join_def lstrip_not_abs)

lemma lstrip_join:
  assumes "cs \<noteq> []" and "\<forall>c\<in>set cs. c \<noteq> [] \<and> sep \<notin> set c"
  shows "lstrip (join_sep cs) = join_sep cs"
proof -
  obtain c ds where cs: "cs = c # ds" using assms(1) by (cases cs) auto
  then obtain a as where c: "c = a # as" using assms(2) by (cases c) auto
  have "a \<noteq> sep" using assms(2) cs c by auto
  then show ?thesis using cs c by (cases ds) (simp_all add: lstrip_def)
qed

lemma download_to_filename_Inr:
  assumes "download_to_filename E b c f r w = (Inr u, w')"
  shows "\<exists>q. walk (files w) [] f = Inr q \<and> q \<noteq> [] \<and> files w q \<noteq> Some Dir
           \<and> files w' = (files w)(q \<mapsto> File (size_bytes b))"
  using assms
  by (auto simp: download_to_filename_def Let_def
           split: sum.splits if_splits option.splits node.splits)

lemma node_at_written:
  assumes "walk fs [] p = Inr q" and "q \<noteq> []" and "fs q \<noteq> Some Dir"
  shows "node_at (fs(q \<mapsto> File n)) p = Some (File n)"
proof -
  have "dirs_kept fs (fs(q \<mapsto> File n))" using assms(3) by (rule dirs_kept_write)
  from walk_kept [OF assms(1) this] assms(2) show ?thesis
    by (auto simp: node_at_file)
qed

lemma download_blob_ok_file:
  assumes "download_blob E (b, base_prefix, dest_dir, skip, chunk_size) w = (Inr r, w')"
    and "startswith ''OK'' r"
  shows "node_at (files w') (local_path dest_dir base_prefix (name b)) = Some (File (size_bytes b))"
proof -
  let ?lp = "local_path dest_dir base_prefix (name b)"
  from assms obtain fs1 u where
    "download_to_filename E b (chunk_of chunk_size) ?lp (Retry 1.0 30.0 2.0 300.0)
       (w\<lparr>files := fs1\<rparr>) = (Inr u, w')"
    by (auto simp: startswith_def split: if_splits sum.splits prod.splits)
  from download_to_filename_Inr [OF this] obtain q where
    "walk fs1 [] ?lp = Inr q" "q \<noteq> []" "fs1 q \<noteq> Some Dir"
    "files w' = fs1(q \<mapsto> File (size_bytes b))"
    by auto
  then show ?thesis by (simp add: node_at_written)
qed

text \<open>
  Claim C7. The local path of an object is a function of the destination root, the
  listing prefix and the key alone: for a key \<open>prefix @ k\<close> it is the destination
  root joined with \<open>k\<close> without its leading separators, that is the root followed by
  the path components of \<open>k\<close>. When \<open>k\<close> is made of proper segments
  (non-empty, not \<open>.\<close>, without separator), the path is the root followed by exactly
  these segments, and a task that returns \<open>OK\<close> has left the file at that path: the
  path names a regular file of the object's size.
\<close>

theorem local_path_mirrors_key:
  "local_path dest_dir prefix (prefix @ k) = path_join dest_dir (lstrip k)
   \<and> local_path dest_dir prefix (prefix @ k) = dest_dir @ path_parts (lstrip k)
   \<and> (cs \<noteq> [] \<and> (\<forall>c\<in>set cs. c \<noteq> [] \<and> c \<noteq> ''.'' \<and> sep \<notin> set c)
        \<longrightarrow> local_path dest_dir prefix (prefix @ join_sep cs) = dest_dir @ cs)
   \<and> (download_blob E (b, prefix, dest_dir, skip, chunk_size) w = (Inr r, w') \<and> startswith ''OK'' r
        \<longrightarrow> node_at (files w') (local_path dest_dir prefix (name b)) = Some (File (size_bytes b)))"
proof (intro conjI impI)
  show "local_path dest_dir prefix (prefix @ k) = path_join dest_dir (lstrip k)"
    by (simp add: local_path_def rel_def)
  show "local_path dest_dir prefix (prefix @ k) = dest_dir @ path_parts (lstrip k)"
    by (rule local_path_parts)
next
  assume a: "cs \<noteq> [] \<and> (\<forall>c\<in>set cs. c \<noteq> [] \<and> c \<noteq> ''.'' \<and> sep \<notin> set c)"
  then have "lstrip (join_sep cs) = join_sep cs"
    by (intro lstrip_join) auto
  moreover have "split_sep (join_sep cs) = cs"
    using a by (intro split_join) auto
  moreover have "filter (\<lambda>c. c \<noteq> [] \<and> c \<noteq> ''.'') cs = cs"
    using a by (simp add: filter_id_conv)
  ultimately show "local_path dest_dir prefix (prefix @ join_sep cs) = dest_dir @ cs"
    by (simp add: local_path_parts path_parts_def)
next
  assume "download_blob E (b, prefix, dest_dir, skip, chunk_size) w = (Inr r, w') \<and> startswith ''OK'' r"
  then show "node_at (files w') (local_path dest_dir prefix (name b)) = Some (File (size_bytes b))"
    using download_blob_ok_file by blast
qed

theorem local_path_mirrors_key_witness:
  "[''sub'', ''f.txt''] \<noteq> []
   \<and> ''sub'' \<noteq> [] \<and> ''sub'' \<noteq> ''.'' \<and> sep \<notin> set ''sub''
   \<and> ''f.txt'' \<noteq> [] \<and> ''f.txt'' \<noteq> ''.'' \<and> sep \<notin> set ''f.txt''
   \<and> local_path [''d''] ''a/'' ''a/sub/f.txt'' = [''d'', ''sub'', ''f.txt'']
   \<and> fst (download_blob scn_env (\<lparr>name = ''a/file1.txt'', size_bytes = 10\<rparr>, ''a/'', [''d''], True, Some 8388608)
            scn_world) = Inr ''OK   : file1.txt''
   \<and> startswith ''OK'' ''OK   : file1.txt''
   \<and> node_at (files (snd (download_blob scn_env
                   (\<lparr>name = ''a/file1.txt'', size_bytes = 10\<rparr>, ''a/'', [''d''], True, Some 8388608)
                   scn_world))) [''d'', ''file1.txt''] = Some (File 10)"
proof -
  let ?t = "(\<lparr>name = ''a/file1.txt'', size_bytes = 10\<rparr>, ''a/'', [''d''], True, Some 8388608)"
  have r: "fst (download_blob scn_env ?t scn_world) = Inr ''OK   : file1.txt''"
    by (simp add: model_defs)
  then have h: "download_blob scn_env ?t scn_world =
                  (Inr ''OK   : file1.txt'', snd (download_blob scn_env ?t scn_world))"
    by (simp add: prod_eq_iff)
  have s: "startswith ''OK'' ''OK   : file1.txt''"
    by (simp add: startswith_def)
  have lp: "local_path [''d''] ''a/'' ''a/file1.txt'' = [''d'', ''file1.txt'']"
    by (simp add: model_defs)
  have c: "[''sub'', ''f.txt''] \<noteq> [] \<and> (\<forall>c\<in>set [''sub'', ''f.txt'']. c \<noteq> [] \<and> c \<noteq> ''.'' \<and> sep \<notin> set c)"
    by (simp add: sep_def)
  note T = local_path_mirrors_key [of "[''d'']" "''a/''" "''sub/f.txt''" "[''sub'', ''f.txt'']"
            scn_env "\<lparr>name = ''a/file1.txt'', size_bytes = 10\<rparr>" True "Some 8388608" scn_world
            "''OK   : file1.txt''" "snd (download_blob scn_env ?t scn_world)"]
  have a: "local_path [''d''] ''a/'' (''a/'' @ join_sep [''sub'', ''f.txt'']) = [''d''] @ [''sub'', ''f.txt'']"
    using T c by blast
  have b: "node_at (files (snd (download_blob scn_env ?t scn_world)))
             (local_path [''d''] ''a/'' (name \<lparr>name = ''a/file1.txt'', size_bytes = 10\<rparr>)) =
           Some (File (size_bytes \<lparr>name = ''a/file1.txt'', size_bytes = 10\<rparr>))"
    using T h s by blast
  have a': "local_path [''d''] ''a/'' ''a/sub/f.txt'' = [''d'', ''sub'', ''f.txt'']"
    using a by (simp add: sep_def)
  have b': "node_at (files (snd (download_blob scn_env ?t scn_world))) [''d'', ''file1.txt''] =
              Some (File 10)"
    using b lp by simp
  have c': "''sub'' \<noteq> [] \<and> ''sub'' \<noteq> ''.'' \<and> sep \<notin> set ''sub''
            \<and> ''f.txt'' \<noteq> [] \<and> ''f.txt'' \<noteq> ''.'' \<and> sep \<notin> set ''f.txt''"
    by (simp add: sep_def)
  show ?thesis
    using a' b' r s c c' by blast
qed

subsection \<open>Retry policy\<close>

text \<open>
  Claim C9. A task that reaches the transfer step (the key is not a marker, the parent
  directories could be made, and the object is not skipped) hands the storage library
  exactly one request, for its own object, whose retry policy is initial 1.0, maximum 30.0,
  multiplier 2.0 and deadline 300.0. Every task makes at most one request, and each
  request carries a policy value of its own with these four parameters.
\<close>

theorem retry_policy_exact:
  "(\<not> endswith ''/'' (name b)
      \<and> mkdir (files w) (parent (local_path dest_dir base_prefix (name b))) = Inr fs1
      \<and> \<not> (skip \<and> should_skip fs1 (local_path dest_dir base_prefix (name b)) b)
    \<longrightarrow> (\<exists>q. requests (snd (download_blob E (b, base_prefix, dest_dir, skip, chunk_size) w)) =
               requests w @ [q]
             \<and> req_blob q = name b
             \<and> req_retry q = \<lparr>initial = 1.0, maximum = 30.0, multiplier = 2.0, deadline = 300.0\<rparr>))
   \<and> (requests (snd (download_blob E (b, base_prefix, dest_dir, skip, chunk_size) w)) = requests w
      \<or> (\<exists>q. requests (snd (download_blob E (b, base_prefix, dest_dir, skip, chunk_size) w)) =
               requests w @ [q]
             \<and> req_blob q = name b
             \<and> initial (req_retry q) = 1.0 \<and> multiplier (req_retry q) = 2.0
             \<and> maximum (req_retry q) = 30.0 \<and> deadline (req_retry q) = 300.0))"
proof (intro conjI impI)
  let ?lp = "local_path dest_dir base_prefix (name b)"
  assume a: "\<not> endswith ''/'' (name b) \<and> mkdir (files w) (parent ?lp) = Inr fs1
             \<and> \<not> (skip \<and> should_skip fs1 ?lp b)"
  have "requests (snd (download_blob E (b, base_prefix, dest_dir, skip, chunk_size) w)) =
          requests (snd (download_to_filename E b (chunk_of chunk_size) ?lp
                           (Retry 1.0 30.0 2.0 300.0) (w\<lparr>files := fs1\<rparr>)))"
    using a
    by (cases "download_to_filename E b (chunk_of chunk_size) ?lp
                 (Retry 1.0 30.0 2.0 300.0) (w\<lparr>files := fs1\<rparr>)")
       (auto split: sum.splits)
  then show "\<exists>q. requests (snd (download_blob E (b, base_prefix, dest_dir, skip, chunk_size) w)) =
               requests w @ [q]
             \<and> req_blob q = name b
             \<and> req_retry q = \<lparr>initial = 1.0, maximum = 30.0, multiplier = 2.0, deadline = 300.0\<rparr>"
    by (simp add: download_to_filename_requests Retry_def)
next
  show "requests (snd (download_blob E (b, base_prefix, dest_dir, skip, chunk_size) w)) = requests w
      \<or> (\<exists>q. requests (snd (download_blob E (b, base_prefix, dest_dir, skip, chunk_size) w)) =
               requests w @ [q]
             \<and> req_blob q = name b
             \<and> initial (req_retry q) = 1.0 \<and> multiplier (req_retry q) = 2.0
             \<and> maximum (req_retry q) = 30.0 \<and> deadline (req_retry q) = 300.0)"
    using download_blob_requests [of E b base_prefix dest_dir skip chunk_size w]
    by (auto simp: Retry_def)
qed

theorem retry_policy_exact_witness:
  "\<not> endswith ''/'' (name \<lparr>name = ''a/file1.txt'', size_bytes = 10\<rparr>)
   \<and> mkdir (files scn_world) (parent (local_path [''d''] ''a/'' ''a/file1.txt'')) = Inr (files scn_world)
   \<and> \<not> should_skip (files scn_world) (local_path [''d''] ''a/'' ''a/file1.txt'')
          \<lparr>name = ''a/file1.txt'', size_bytes = 10\<rparr>
   \<and> (\<exists>q. requests (snd (download_blob scn_env
               (\<lparr>name = ''a/file1.txt'', size_bytes = 10\<rparr>, ''a/'', [''d''], True, Some 8388608)
               scn_world)) = requests scn_world @ [q]
          \<and> req_blob q = ''a/file1.txt''
          \<and> req_retry q = \<lparr>initial = 1.0, maximum = 30.0, multiplier = 2.0, deadline = 300.0\<rparr>)"
proof -
  let ?b = "\<lparr>name = ''a/file1.txt'', size_bytes = 10\<rparr>"
  have h1: "\<not> endswith ''/'' (name ?b)"
    by (simp add: endswith_def)
  have h2: "mkdir (files scn_world) (parent (local_path [''d''] ''a/'' (name ?b))) = Inr (files scn_world)"
    by (simp add: model_defs)
  have h3: "\<not> (True \<and> should_skip (files scn_world) (local_path [''d''] ''a/'' (name ?b)) ?b)"
    by (simp add: model_defs)
  show ?thesis
    using retry_policy_exact [of ?b scn_world "[''d'']" "''a/''" "files scn_world" True scn_env "Some 8388608"]
          h1 h2 h3
    by simp
qed

subsection \<open>Dispatcher and reporter\<close>

lemma download_blob_shape:
  assumes "download_blob E (b, base_prefix, dest_dir, skip, chunk_size) w = (Inr s, w')"
  shows "s = ''DIR  : '' @ name b @ '' (skipped marker)''
         \<or> s = ''SKIP : '' @ rel base_prefix (name b) @ '' (exists, same size)''
         \<or> s = ''OK   : '' @ rel base_prefix (name b)"
  using assms by (auto split: if_splits sum.splits prod.splits)

lemma download_blob_tagged:
  assumes "download_blob E t w = (Inr s, w')"
  shows "startswith ''DIR'' s \<or> startswith ''SKIP'' s \<or> startswith ''OK'' s"
proof -
  obtain b base_prefix dest_dir skip chunk_size where t: "t = (b, base_prefix, dest_dir, skip, chunk_size)"
    by (cases t) auto
  show ?thesis
    using download_blob_shape [OF assms [unfolded t]] by (auto simp: startswith_def)
qed

lemma ex_map_tagged:
  "ex_map E ts w = (Inr rs, w') \<Longrightarrow>
     length rs = length ts
     \<and> (\<forall>s\<in>set rs. startswith ''DIR'' s \<or> startswith ''SKIP'' s \<or> startswith ''OK'' s)"
proof (induction ts arbitrary: w rs w')
  case Nil
  then show ?case by simp
next
  case (Cons t ts)
  from Cons.prems obtain r w1 rs1 where
    d: "download_blob E t w = (Inr r, w1)" and
    m: "ex_map E ts w1 = (Inr rs1, w')" and
    rs: "rs = r # rs1"
    by (auto split: prod.splits sum.splits)
  from Cons.IH [OF m] download_blob_tagged [OF d] rs show ?case by simp
qed

lemma tally_errors_unchanged:
  "\<forall>s\<in>set rs. startswith ''DIR'' s \<or> startswith ''SKIP'' s \<or> startswith ''OK'' s \<Longrightarrow>
     snd (tally rs (c, e)) = e"
  by (induction rs arbitrary: c) auto

lemma tags_exclusive:
  "\<not> (startswith ''OK'' s \<and> startswith ''SKIP'' s)"
  "\<not> (startswith ''OK'' s \<and> startswith ''DIR'' s)"
  "\<not> (startswith ''SKIP'' s \<and> startswith ''DIR'' s)"
  by (cases s; simp add: startswith_def)+

lemma tally_completed:
  "fst (tally rs (c, e)) = c + length (filter (startswith ''OK'') rs)"
  by (induction rs arbitrary: c e) auto

lemma tagged_partition:
  "\<forall>s\<in>set rs. startswith ''DIR'' s \<or> startswith ''SKIP'' s \<or> startswith ''OK'' s \<Longrightarrow>
     length (filter (startswith ''OK'') rs) + length (filter (startswith ''SKIP'') rs)
       + length (filter (startswith ''DIR'') rs) = length rs"
proof (induction rs)
  case Nil
  then show ?case by simp
next
  case (Cons r rs)
  then show ?case using tags_exclusive [of r] by auto
qed

lemma ex_map_outcomes:
  "ex_map E ts w = (Inr rs, w') \<Longrightarrow> task_outcomes E ts w = map Inr rs"
proof (induction ts arbitrary: w rs w')
  case Nil
  then show ?case by simp
next
  case (Cons t ts)
  from Cons.prems obtain r w1 rs1 where
    d: "download_blob E t w = (Inr r, w1)" and
    m: "ex_map E ts w1 = (Inr rs1, w')" and
    rs: "rs = r # rs1"
    by (auto split: prod.splits sum.splits)
  from Cons.IH [OF m] d rs show ?case by simp
qed


lemma main_summary:
  assumes "fst (main E a w) = Inr (Some s)"
  shows "\<exists>bucket_name prefix fs1 blobs rs w2.
           parse_gcs_uri (gcs_uri a) = Inr (bucket_name, prefix)
           \<and> mkdir (files w) (dest a) = Inr fs1
           \<and> list_blobs E bucket_name prefix = Inr blobs
           \<and> ex_map E (work_of blobs prefix (dest a) (skip_existing a)
                          (chunk_size_of_mb (chunk_size_mb a))) (w\<lparr>files := fs1\<rparr>) = (Inr rs, w2)
           \<and> s = \<lparr>completed = fst (tally rs (0, 0)), errors = snd (tally rs (0, 0)),
                   total = length blobs\<rparr>"
  using assms
  by (auto simp: main_def split: sum.splits prod.splits option.splits if_splits)

lemma download_blob_undelivered:
  assumes "\<not> endswith ''/'' (name b)"
    and "mkdir (files w) (parent (local_path dest_dir base_prefix (name b))) = Inr fs1"
    and "\<not> (skip \<and> should_skip fs1 (local_path dest_dir base_prefix (name b)) b)"
    and "\<not> delivers E (name b)"
  shows "\<exists>e. fst (download_blob E (b, base_prefix, dest_dir, skip, chunk_size) w) = Inl e"
  using assms
  by (auto simp: download_to_filename_def Let_def split: sum.splits option.splits node.splits)

subsection \<open>The scenario, evaluated\<close>

lemma scn_parse: "parse_gcs_uri (gcs_uri scn_args) = Inr (''bkt'', ''a/'')"
  by (simp add: parse_gcs_uri_def model_defs)

lemma scn_mkdir: "mkdir (files scn_world) (dest scn_args) = Inr (files scn_world)"
  by (simp add: model_defs)

lemma scn_list: "list_blobs scn_env ''bkt'' ''a/'' = Inr scn_blobs"
  by (simp add: scn_env_def)

lemma scn_work:
  "work_of scn_blobs ''a/'' (dest scn_args) (skip_existing scn_args)
     (chunk_size_of_mb (chunk_size_mb scn_args)) =
   [(\<lparr>name = ''a/file1.txt'', size_bytes = 10\<rparr>, ''a/'', [''d''], True, Some 8388608),
    (\<lparr>name = ''a/file2.txt'', size_bytes = 20\<rparr>, ''a/'', [''d''], True, Some 8388608),
    (\<lparr>name = ''a/dir/'', size_bytes = 0\<rparr>, ''a/'', [''d''], True, Some 8388608)]"
  by (simp add: model_defs)

lemma scn_ex_map:
  "fst (ex_map scn_env (work_of scn_blobs ''a/'' (dest scn_args) (skip_existing scn_args)
                          (chunk_size_of_mb (chunk_size_mb scn_args))) scn_world) =
     Inr [''OK   : file1.txt'', ''SKIP : file2.txt (exists, same size)'',
          ''DIR  : a/dir/ (skipped marker)'']"
  unfolding scn_work by (simp add: model_defs)

lemma scn_main:
  "fst (main scn_env scn_args scn_world) = Inr (Some \<lparr>completed = 1, errors = 0, total = 3\<rparr>)"
  by (simp add: main_def parse_gcs_uri_def model_defs)

lemma failing_main: "fst (main failing_env scn_args scn_world) = Inl TransferError"
  by (simp add: main_def parse_gcs_uri_def model_defs)

lemma failing_outcomes:
  "task_outcomes failing_env
     (work_of scn_blobs ''a/'' (dest scn_args) (skip_existing scn_args)
        (chunk_size_of_mb (chunk_size_mb scn_args))) scn_world =
   [Inl TransferError, Inr ''SKIP : file2.txt (exists, same size)'',
    Inr ''DIR  : a/dir/ (skipped marker)'']"
  unfolding scn_work by (simp add: model_defs)

subsection \<open>Results and failures\<close>

text \<open>
  Claim C10. Whatever \<open>download_blob\<close> returns starts with one of the three tags
  \<open>DIR\<close>, \<open>SKIP\<close>, \<open>OK\<close>. So the last branch of the loop in \<open>main\<close>, the one
  that counts an error, is never taken for a returned result: the error counter of a
  run whose results were all collected is 0, and so is the one of every summary. A
  transfer that does not deliver is not a returned value: \<open>download_blob\<close> raises.
\<close>

theorem returned_results_are_tagged:
  "(download_blob E t w = (Inr r, w') \<longrightarrow>
      startswith ''DIR'' r \<or> startswith ''SKIP'' r \<or> startswith ''OK'' r)
   \<and> (ex_map E ts w = (Inr rs, w'') \<longrightarrow> snd (tally rs (0, 0)) = 0)
   \<and> (fst (main E a w) = Inr (Some s) \<longrightarrow> errors s = 0)
   \<and> (\<not> endswith ''/'' (name b)
        \<and> mkdir (files w) (parent (local_path dest_dir base_prefix (name b))) = Inr fs1
        \<and> \<not> (skip \<and> should_skip fs1 (local_path dest_dir base_prefix (name b)) b)
        \<and> \<not> delivers E (name b)
      \<longrightarrow> (\<exists>e. fst (download_blob E (b, base_prefix, dest_dir, skip, chunk_size) w) = Inl e))"
proof (intro conjI impI)
  assume "download_blob E t w = (Inr r, w')"
  then show "startswith ''DIR'' r \<or> startswith ''SKIP'' r \<or> startswith ''OK'' r"
    by (rule download_blob_tagged)
next
  assume "ex_map E ts w = (Inr rs, w'')"
  then show "snd (tally rs (0, 0)) = 0"
    using ex_map_tagged tally_errors_unchanged by blast
next
  assume "fst (main E a w) = Inr (Some s)"
  from main_summary [OF this] obtain bucket_name prefix fs1 blobs rs w2 where
    m: "ex_map E (work_of blobs prefix (dest a) (skip_existing a)
                    (chunk_size_of_mb (chunk_size_mb a))) (w\<lparr>files := fs1\<rparr>) = (Inr rs, w2)"
    and s: "s = \<lparr>completed = fst (tally rs (0, 0)), errors = snd (tally rs (0, 0)),
                 total = length blobs\<rparr>"
    by blast
  have "snd (tally rs (0, 0)) = 0"
    using ex_map_tagged [OF m] tally_errors_unchanged by blast
  with s show "errors s = 0" by simp
next
  assume "\<not> endswith ''/'' (name b)
        \<and> mkdir (files w) (parent (local_path dest_dir base_prefix (name b))) = Inr fs1
        \<and> \<not> (skip \<and> should_skip fs1 (local_path dest_dir base_prefix (name b)) b)
        \<and> \<not> delivers E (name b)"
  then show "\<exists>e. fst (download_blob E (b, base_prefix, dest_dir, skip, chunk_size) w) = Inl e"
    using download_blob_undelivered by blast
qed

theorem returned_results_are_tagged_witness:
  "fst (download_blob scn_env (\<lparr>name = ''a/file1.txt'', size_bytes = 10\<rparr>, ''a/'', [''d''], True, Some 8388608)
          scn_world) = Inr ''OK   : file1.txt''
   \<and> startswith ''OK'' ''OK   : file1.txt''
   \<and> fst (ex_map scn_env (work_of scn_blobs ''a/'' (dest scn_args) (skip_existing scn_args)
                             (chunk_size_of_mb (chunk_size_mb scn_args))) scn_world) =
       Inr [''OK   : file1.txt'', ''SKIP : file2.txt (exists, same size)'',
            ''DIR  : a/dir/ (skipped marker)'']
   \<and> snd (tally [''OK   : file1.txt'', ''SKIP : file2.txt (exists, same size)'',
                  ''DIR  : a/dir/ (skipped marker)''] (0, 0)) = 0
   \<and> fst (main scn_env scn_args scn_world) = Inr (Some \<lparr>completed = 1, errors = 0, total = 3\<rparr>)
   \<and> errors \<lparr>completed = 1, errors = 0, total = 3\<rparr> = 0
   \<and> \<not> delivers failing_env ''a/file1.txt''
   \<and> (\<exists>e. fst (download_blob failing_env
                  (\<lparr>name = ''a/file1.txt'', size_bytes = 10\<rparr>, ''a/'', [''d''], True, Some 8388608)
                  scn_world) = Inl e)"
proof -
  let ?b = "\<lparr>name = ''a/file1.txt'', size_bytes = 10\<rparr>"
  let ?t = "(?b, ''a/'', [''d''], True, Some 8388608)"
  let ?ts = "work_of scn_blobs ''a/'' (dest scn_args) (skip_existing scn_args)
               (chunk_size_of_mb (chunk_size_mb scn_args))"
  let ?rs = "[''OK   : file1.txt'', ''SKIP : file2.txt (exists, same size)'',
              ''DIR  : a/dir/ (skipped marker)'']"
  let ?s = "\<lparr>completed = 1, errors = 0, total = 3\<rparr>"
  have d: "fst (download_blob scn_env ?t scn_world) = Inr ''OK   : file1.txt''"
    by (simp add: model_defs)
  then have d': "download_blob scn_env ?t scn_world =
                   (Inr ''OK   : file1.txt'', snd (download_blob scn_env ?t scn_world))"
    by (simp add: prod_eq_iff)
  have m': "ex_map scn_env ?ts scn_world = (Inr ?rs, snd (ex_map scn_env ?ts scn_world))"
    using scn_ex_map by (simp add: prod_eq_iff)
  have h1: "\<not> endswith ''/'' (name ?b)"
    by (simp add: endswith_def)
  have h2: "mkdir (files scn_world) (parent (local_path [''d''] ''a/'' (name ?b))) = Inr (files scn_world)"
    by (simp add: model_defs)
  have h3: "\<not> (True \<and> should_skip (files scn_world) (local_path [''d''] ''a/'' (name ?b)) ?b)"
    by (simp add: model_defs)
  have h4: "\<not> delivers failing_env (name ?b)"
    by (simp add: failing_env_def)
  note T1 = returned_results_are_tagged
              [where E = scn_env and t = ?t and w = scn_world and r = "''OK   : file1.txt''"
                 and w' = "snd (download_blob scn_env ?t scn_world)" and ts = ?ts and rs = ?rs
                 and w'' = "snd (ex_map scn_env ?ts scn_world)" and a = scn_args and s = ?s]
  note T2 = returned_results_are_tagged
              [where E = failing_env and w = scn_world and b = ?b and dest_dir = "[''d'']"
                 and base_prefix = "''a/''" and ?fs1.0 = "files scn_world" and skip = True
                 and chunk_size = "Some 8388608"]
  have c1: "startswith ''OK'' ''OK   : file1.txt''"
    by (simp add: startswith_def)
  have c2: "snd (tally ?rs (0, 0)) = 0"
    using T1 m' by blast
  have c3: "errors ?s = 0"
    using T1 scn_main by blast
  have c4: "\<exists>e. fst (download_blob failing_env ?t scn_world) = Inl e"
    using T2 h1 h2 h3 h4 by blast
  show ?thesis
    using d c1 scn_ex_map c2 scn_main c3 h4 c4 by simp
qed

text \<open>
  Claim C3, as amended. When \<open>main\<close> ends with a summary, every listed object has
  produced exactly one outcome, a returned result; the summary holds the number of
  \<open>OK\<close> results, an error count of 0 and the number of listed objects, and no count of
  skipped objects or of markers. The two counts of the summary together with the numbers
  of \<open>SKIP\<close> and \<open>DIR\<close> results, taken from the outcomes, add up to the total.
\<close>

theorem summary_counts_outcomes:
  assumes "parse_gcs_uri (gcs_uri a) = Inr (bucket_name, prefix)"
    and "mkdir (files w) (dest a) = Inr fs1"
    and "list_blobs E bucket_name prefix = Inr blobs"
    and "fst (main E a w) = Inr (Some s)"
  shows "\<exists>rs. task_outcomes E (work_of blobs prefix (dest a) (skip_existing a)
                                   (chunk_size_of_mb (chunk_size_mb a))) (w\<lparr>files := fs1\<rparr>)
                = map Inr rs
              \<and> length rs = length blobs
              \<and> total s = length blobs
              \<and> completed s = length (filter (startswith ''OK'') rs)
              \<and> errors s = 0
              \<and> completed s + errors s + length (filter (startswith ''SKIP'') rs)
                  + length (filter (startswith ''DIR'') rs) = total s"
proof -
  from main_summary [OF assms(4)] assms(1-3) obtain rs w2 where
    m: "ex_map E (work_of blobs prefix (dest a) (skip_existing a)
                    (chunk_size_of_mb (chunk_size_mb a))) (w\<lparr>files := fs1\<rparr>) = (Inr rs, w2)"
    and s: "s = \<lparr>completed = fst (tally rs (0, 0)), errors = snd (tally rs (0, 0)),
                 total = length blobs\<rparr>"
    by auto
  have tg: "\<forall>r\<in>set rs. startswith ''DIR'' r \<or> startswith ''SKIP'' r \<or> startswith ''OK'' r"
    and len: "length rs = length blobs"
    using ex_map_tagged [OF m] by (simp_all add: work_of_def)
  have e: "snd (tally rs (0, 0)) = 0"
    using tg by (rule tally_errors_unchanged)
  have c: "fst (tally rs (0, 0)) = length (filter (startswith ''OK'') rs)"
    by (simp add: tally_completed)
  show ?thesis
    using ex_map_outcomes [OF m] len s e c tagged_partition [OF tg]
    by (intro exI [of _ rs]) simp
qed

theorem summary_counts_outcomes_witness:
  "parse_gcs_uri (gcs_uri scn_args) = Inr (''bkt'', ''a/'')
   \<and> mkdir (files scn_world) (dest scn_args) = Inr (files scn_world)
   \<and> list_blobs scn_env ''bkt'' ''a/'' = Inr scn_blobs
   \<and> fst (main scn_env scn_args scn_world) = Inr (Some \<lparr>completed = 1, errors = 0, total = 3\<rparr>)
   \<and> (\<exists>rs. task_outcomes scn_env
               (work_of scn_blobs ''a/'' (dest scn_args) (skip_existing scn_args)
                  (chunk_size_of_mb (chunk_size_mb scn_args)))
               (scn_world\<lparr>files := files scn_world\<rparr>) = map Inr rs
            \<and> length rs = length scn_blobs
            \<and> 1 + 0 + length (filter (startswith ''SKIP'') rs)
                + length (filter (startswith ''DIR'') rs) = (3::nat))"
  using summary_counts_outcomes [OF scn_parse scn_mkdir scn_list scn_main]
        scn_parse scn_mkdir scn_list scn_main
  by auto

text \<open>
  Claim C3 as stated does not hold of the summary: in the scenario the summary is
  1 successful, 0 errors, 3 listed, and the counts it holds do not add up to the total,
  since the skipped object and the marker are counted nowhere.
\<close>

theorem summary_sum_counterexample:
  "fst (main scn_env scn_args scn_world) = Inr (Some \<lparr>completed = 1, errors = 0, total = 3\<rparr>)
   \<and> completed \<lparr>completed = 1, errors = 0, total = 3\<rparr> + errors \<lparr>completed = 1, errors = 0, total = 3\<rparr>
       \<noteq> total \<lparr>completed = 1, errors = 0, total = 3\<rparr>"
  using scn_main by simp

text \<open>
  Claim C1, evaluated where the transfer of \<open>a/file1.txt\<close> never delivers: the
  exception of that task leaves \<open>main\<close>, which ends without a summary, although the
  two other tasks, run by themselves, produce a result each.
\<close>

theorem failed_task_aborts_run:
  "fst (main failing_env scn_args scn_world) = Inl TransferError
   \<and> task_outcomes failing_env
       (work_of scn_blobs ''a/'' (dest scn_args) (skip_existing scn_args)
          (chunk_size_of_mb (chunk_size_mb scn_args))) scn_world =
     [Inl TransferError, Inr ''SKIP : file2.txt (exists, same size)'',
      Inr ''DIR  : a/dir/ (skipped marker)'']"
  using failing_main failing_outcomes by simp

subsection \<open>Exit status\<close>













subsection \<open>Running twice\<close>

















lemmas clash_defs = clash_env_def clash_args_def clash_world_def



text \<open>
  The same happens when the two local paths differ and name one file: the keys
  \<open>p/b/../x\<close> and \<open>p/x\<close> are both written to \<open>d/x\<close>, the directory \<open>d/b\<close> is
  made on the way, and the second run downloads both again.
\<close>

lemma dotdot_second_run:
  "local_path [''d''] ''p/'' ''p/b/../x'' = [''d'', ''b'', ''..'', ''x'']
   \<and> resolve [''d'', ''b'', ''..'', ''x''] = [''d'', ''x'']
   \<and> fst (main dotdot_env clash_args clash_world) =
       Inr (Some \<lparr>completed = 2, errors = 0, total = 2\<rparr>)
   \<and> files (snd (main dotdot_env clash_args clash_world)) [''d'', ''x''] = Some (File 1)
   \<and> files (snd (main dotdot_env clash_args clash_world)) [''d'', ''b''] = Some Dir
   \<and> fst (main dotdot_env clash_args (snd (main dotdot_env clash_args clash_world))) =
       Inr (Some \<lparr>completed = 2, errors = 0, total = 2\<rparr>)"
proof -
  have first: "main dotdot_env clash_args clash_world =
     (Inr (Some \<lparr>completed = 2, errors = 0, total = 2\<rparr>),
      \<lparr>files = [[''d''] \<mapsto> Dir, [''d'', ''b''] \<mapsto> Dir, [''d'', ''x''] \<mapsto> File 1],
       requests = [\<lparr>req_blob = ''p/b/../x'', req_filename = [''d'', ''b'', ''..'', ''x''],
                     req_chunk_size = Some 8388608, req_retry = Retry 1.0 30.0 2.0 300.0\<rparr>,
                   \<lparr>req_blob = ''p/x'', req_filename = [''d'', ''x''],
                     req_chunk_size = Some 8388608, req_retry = Retry 1.0 30.0 2.0 300.0\<rparr>]\<rparr>)"
    by (simp add: main_def parse_gcs_uri_def dotdot_env_def clash_defs model_defs)
  show ?thesis
    unfolding first
    by (simp add: main_def parse_gcs_uri_def dotdot_env_def clash_defs model_defs)
qed

end
